theory Spec2Isabelle
  imports Main
begin

section \<open>Help text rendering of the command-line interface (cli/helptext.go)\<close>

text \<open>
  Go strings are byte sequences and \<open>len\<close> counts bytes, so a Go string is a \<open>string\<close>
  (a list of 8-bit characters) and \<open>len\<close> is \<open>length\<close>. \<open>fmt.Sprintf\<close> with the
  verb \<open>%v\<close> on a string inserts the string unchanged.
\<close>

subsection \<open>The command tree\<close>

text \<open>
  Modelled from the spec: the types \<open>cmds.Argument\<close>, \<open>cmds.Option\<close> and
  \<open>cmds.Command\<close> of the imported package \<open>commands\<close> are declared outside
  cli/helptext.go. Their fields are the ones helptext.go reads, named as there with a
  prefix for the type (\<open>arg.Name\<close> is \<open>arg_Name arg\<close>, and so on).
\<close>

record Argument =
  arg_Name :: string
  arg_Required :: bool
  arg_Variadic :: bool
  arg_Description :: string

record Option =
  opt_Names :: "string list"
  opt_Type :: string
  opt_Description :: string

text \<open>
  \<open>Subcommands\<close> is a Go map from names to commands. It is an association list here:
  the keys with their values, in the order in which a \<open>range\<close> over the map visits
  them. Go leaves that order open, so every statement below is made for every order.
\<close>

datatype Command = Command
  (cmd_Description: string)
  (cmd_Help: string)
  (cmd_ArgumentHelp: string)
  (cmd_OptionHelp: string)
  (cmd_SubcommandHelp: string)
  (cmd_Arguments: "Argument list")
  (cmd_Options: "Option list")
  (cmd_Subcommands: "(string \<times> Command) list")

datatype error = CommandNotFound "string list"

text \<open>
  Modelled from the spec: \<open>Command.Get\<close>, the path lookup of the package \<open>commands\<close>,
  is not part of cli/helptext.go. The spec: "Resolve the Command at the given path from
  the root; fail with a NotFound error if any path segment does not exist", the error being
  "CommandNotFound", which "carries the offending path for diagnostics".
\<close>

fun Resolve :: "Command \<Rightarrow> string list \<Rightarrow> Command option" where
  "Resolve c [] = Some c"
| "Resolve c (name # rest) =
     (case map_of (cmd_Subcommands c) name of
        None \<Rightarrow> None
      | Some sub \<Rightarrow> Resolve sub rest)"

definition Get :: "Command \<Rightarrow> string list \<Rightarrow> error + Command" where
  "Get root path =
     (case Resolve root path of
        None \<Rightarrow> Inl (CommandNotFound path)
      | Some cmd \<Rightarrow> Inr cmd)"

subsection \<open>Constants and the fields of the template\<close>

definition requiredArg :: "string \<Rightarrow> string" where
  "requiredArg v = ''<'' @ v @ ''>''"

definition optionalArg :: "string \<Rightarrow> string" where
  "optionalArg v = ''[<'' @ v @ ''>]''"

definition variadicArg :: "string \<Rightarrow> string" where
  "variadicArg v = v @ ''...''"

definition optionFlag :: "string \<Rightarrow> string" where
  "optionFlag v = ''-'' @ v"

definition optionType :: "string \<Rightarrow> string" where
  "optionType v = ''('' @ v @ '')''"

definition indentStr :: string where
  "indentStr = ''    ''"

record helpFields =
  Indent :: string
  Path :: string
  ArgUsage :: string
  Tagline :: string
  Arguments :: string
  Options :: string
  Subcommands :: string
  Description :: string

subsection \<open>String helpers of the Go library\<close>

text \<open>\<open>strings.Join(elems, sep)\<close>.\<close>

fun Join :: "string list \<Rightarrow> string \<Rightarrow> string" where
  "Join [] sep = []"
| "Join [x] sep = x"
| "Join (x # y # ys) sep = x @ sep @ Join (y # ys) sep"

text \<open>
  \<open>indentString\<close> is \<open>strings.Replace(line, "\n", "\n"+prefix, -1)\<close>: the replaced
  string is the single byte \<open>\n\<close>, so every newline of \<open>line\<close>, left to right, is
  followed by \<open>prefix\<close> in the result, and every other byte is kept.
\<close>

fun indentString :: "string \<Rightarrow> string \<Rightarrow> string" where
  "indentString [] prefix = []"
| "indentString (c # cs) prefix =
     (if c = CHR ''\<newline>'' then c # prefix @ indentString cs prefix
      else c # indentString cs prefix)"

subsection \<open>align\<close>

text \<open>
  The first loop of \<open>align\<close> finds the longest length, the second pads. Go pads the
  slice in place and returns it; every caller continues with the returned slice only.
  \<open>strings.Repeat(" ", n)\<close> is \<open>replicate n CHR '' ''\<close>; \<open>n\<close> is never negative,
  since \<open>longest\<close> is at least the length of every line (\<open>longest_ge\<close> below).
\<close>

definition longest_of :: "string list \<Rightarrow> nat" where
  "longest_of lines =
     fold (\<lambda>line longest. if length line > longest then length line else longest) lines 0"

definition align :: "string list \<Rightarrow> string list" where
  "align lines =
     (let longest = longest_of lines in
      map (\<lambda>line. if length line > 0
                   then line @ replicate (longest - length line) CHR '' ''
                   else line) lines)"

subsection \<open>Usage text\<close>

definition argUsageText :: "Argument \<Rightarrow> string" where
  "argUsageText arg =
     (let s = arg_Name arg;
          s = (if arg_Required arg then requiredArg s else optionalArg s);
          s = (if arg_Variadic arg then variadicArg s else s)
      in s)"

text \<open>The loop of \<open>usageText\<close>, with its index \<open>i\<close> and its accumulator \<open>s\<close>.\<close>

fun usageText_loop :: "Argument list \<Rightarrow> nat \<Rightarrow> string \<Rightarrow> string" where
  "usageText_loop [] i s = s"
| "usageText_loop (arg # args) i s =
     usageText_loop args (i + 1) ((if i \<noteq> 0 then s @ '' '' else s) @ argUsageText arg)"

definition usageText :: "Command \<Rightarrow> string" where
  "usageText cmd = usageText_loop (cmd_Arguments cmd) 0 []"

subsection \<open>The default section generators\<close>

text \<open>
  \<open>argumentText\<close> fills a slice of \<open>len(cmd.Arguments)\<close> lines, line \<open>i\<close> from
  argument \<open>i\<close> alone.
\<close>

definition argumentText :: "Command \<Rightarrow> string list" where
  "argumentText cmd =
     map (\<lambda>arg. indentString (argUsageText arg @ ''\<newline>'' @ arg_Description arg) ''    ''
                  @ ''\<newline>'')
         (cmd_Arguments cmd)"

text \<open>
  One pass of the inner loop of \<open>optionText\<close> over the options, for the name index
  \<open>j\<close>: \<open>i\<close> is the line index, \<open>done\<close> the flag of the pass. The line \<open>i\<close> exists
  when it is read, since the loop appends it first if it is missing
  (\<open>length_names_pass\<close> below).
\<close>

fun names_pass ::
  "Option list \<Rightarrow> nat \<Rightarrow> nat \<Rightarrow> string list \<Rightarrow> bool \<Rightarrow> string list \<times> bool" where
  "names_pass [] j i lines done = (lines, done)"
| "names_pass (opt # opts) j i lines done =
     (let lines = (if length lines < i + 1 then lines @ [[]] else lines);
          lines = (if length (opt_Names opt) \<ge> j + 1
                   then lines[i := lines ! i @ optionFlag (opt_Names opt ! j)] else lines);
          (lines, done) = (if length (opt_Names opt) > j + 1
                           then (lines[i := lines ! i @ '', ''], False) else (lines, done))
      in names_pass opts j (i + 1) lines done)"

lemma snd_names_pass:
  "snd (names_pass opts j i lines d)
   = (d \<and> list_all (\<lambda>opt. \<not> length (opt_Names opt) > j + 1) opts)"
  by (induction opts arbitrary: i lines d) (simp_all add: Let_def)

lemma names_pass_not_done:
  assumes "names_pass opts j i lines True = (lines', False)"
  shows "j < Max (insert 0 ((\<lambda>opt. length (opt_Names opt)) ` set opts))"
proof -
  from assms snd_names_pass [of opts j i lines True]
  have "\<not> list_all (\<lambda>opt. \<not> length (opt_Names opt) > j + 1) opts" by simp
  then obtain opt where opt: "opt \<in> set opts" "j + 1 < length (opt_Names opt)"
    by (auto simp: list_all_iff)
  have "length (opt_Names opt) \<le> Max (insert 0 ((\<lambda>opt. length (opt_Names opt)) ` set opts))"
    using opt(1) by (intro Max_ge) auto
  with opt(2) show ?thesis by simp
qed

text \<open>
  The outer loop \<open>for { ... }\<close> of \<open>optionText\<close>: a pass for the index \<open>j\<close>; when the
  pass is done the loop is left at once, otherwise the lines are aligned and \<open>j\<close> goes up.
\<close>

function optionText_names :: "Option list \<Rightarrow> nat \<Rightarrow> string list \<Rightarrow> string list" where
  "optionText_names options j lines =
     (case names_pass options j 0 lines True of
        (lines, done) \<Rightarrow>
          if done then lines
          else optionText_names options (j + 1) (align lines))"
  by pat_completeness auto
termination
proof (relation "measure (\<lambda>(options, j, lines).
                   Max (insert 0 ((\<lambda>opt. length (opt_Names opt)) ` set options)) - j)",
       goal_cases)
  case 1
  show ?case by simp
next
  case (2 options j lines x y)
  then have "names_pass options j 0 lines True = (x, False)" by simp
  from names_pass_not_done [OF this] show ?case by simp
qed

text \<open>The two loops \<open>for i, opt := range options\<close> that extend line \<open>i\<close>.\<close>

fun add_types :: "Option list \<Rightarrow> nat \<Rightarrow> string list \<Rightarrow> string list" where
  "add_types [] i lines = lines"
| "add_types (opt # opts) i lines =
     add_types opts (i + 1) (lines[i := lines ! i @ '' '' @ optionType (opt_Type opt)])"

fun add_descriptions :: "Option list \<Rightarrow> nat \<Rightarrow> string list \<Rightarrow> string list" where
  "add_descriptions [] i lines = lines"
| "add_descriptions (opt # opts) i lines =
     add_descriptions opts (i + 1)
       (lines[i := indentString (lines ! i @ ''\<newline>'' @ opt_Description opt) ''    ''
                   @ ''\<newline>''])"

text \<open>\<open>optionText\<close> takes any number of commands (a variadic parameter).\<close>

definition optionText :: "Command list \<Rightarrow> string list" where
  "optionText cmd =
     (let options = concat (map cmd_Options cmd);
          lines = optionText_names options 0 [];
          lines = add_types options 0 lines;
          lines = align lines;
          lines = add_descriptions options 0 lines
      in lines)"

text \<open>
  \<open>subcommandText\<close> ranges over the map of subcommands; line \<open>i\<close> is made from the
  \<open>i\<close>-th pair visited.
\<close>

definition subcommandText :: "Command \<Rightarrow> string \<Rightarrow> string list \<Rightarrow> string list" where
  "subcommandText cmd rootName path =
     (let prefix = rootName @ '' '' @ Join path '' '';
          prefix = (if length path > 0 then prefix @ '' '' else prefix)
      in map (\<lambda>(name, sub).
                indentString (prefix @ name @ '' '' @ usageText sub
                              @ ''\<newline>'' @ cmd_Description sub) ''    ''
                @ ''\<newline>'')
             (cmd_Subcommands cmd))"

subsection \<open>The templates\<close>

text \<open>
  The two format strings, parsed as \<open>text/template\<close> parses them: text between actions
  is copied, \<open>{{.F}}\<close> inserts the field \<open>F\<close>, \<open>{{if .F}} ... {{end}}\<close> runs its body
  when the field is not the empty string, and \<open>{{template "usage" .}}\<close> runs the
  template of that name on the same fields. Both templates are parsed by \<open>init\<close> into
  one set, so the name \<open>usage\<close> is bound to the nodes of \<open>usageFormat\<close>; the node
  carries them.
\<close>

datatype node =
    TextNode string
  | FieldNode "helpFields \<Rightarrow> string"
  | IfNode "helpFields \<Rightarrow> string" "node list"
  | TemplateNode "node list"

fun exec_node :: "node \<Rightarrow> helpFields \<Rightarrow> string"
  and exec_nodes :: "node list \<Rightarrow> helpFields \<Rightarrow> string" where
  "exec_node (TextNode s) f = s"
| "exec_node (FieldNode field) f = field f"
| "exec_node (IfNode field body) f = (if field f \<noteq> [] then exec_nodes body f else [])"
| "exec_node (TemplateNode body) f = exec_nodes body f"
| "exec_nodes [] f = []"
| "exec_nodes (n # ns) f = exec_node n f @ exec_nodes ns f"

definition usageTemplate :: "node list" where
  "usageTemplate =
     [FieldNode Path,
      IfNode ArgUsage [TextNode '' '', FieldNode ArgUsage],
      TextNode '' - '',
      FieldNode Tagline]"

definition longHelpTemplate :: "node list" where
  "longHelpTemplate =
     [TextNode ''\<newline>'',
      FieldNode Indent, TemplateNode usageTemplate,
      TextNode ''\<newline>\<newline>'',
      IfNode Arguments
        [TextNode ''ARGUMENTS:\<newline>\<newline>'',
         FieldNode Indent, FieldNode Arguments,
         TextNode ''\<newline>\<newline>''],
      IfNode Options
        [TextNode ''OPTIONS:\<newline>\<newline>'',
         FieldNode Indent, FieldNode Options,
         TextNode ''\<newline>\<newline>''],
      IfNode Subcommands
        [TextNode ''SUBCOMMANDS:\<newline>\<newline>'',
         FieldNode Indent, FieldNode Subcommands,
         TextNode ''\<newline>\<newline>'',
         FieldNode Indent, TextNode (''Use '' @ [CHR 0x27]), FieldNode Path,
         TextNode ('' <subcmd> --help'' @ [CHR 0x27]
                   @ '' for more information about each command.\<newline>\<newline>'')],
      IfNode Description
        [TextNode ''DESCRIPTION:\<newline>\<newline>'',
         FieldNode Indent, FieldNode Description,
         TextNode ''\<newline>\<newline>''],
      TextNode ''\<newline>'']"

subsection \<open>LongHelp\<close>

text \<open>
  The fields that \<open>LongHelp\<close> builds for the command found (lines 85 to 115): the
  path string, the fields from the command, the generators for the sections whose
  override is empty, and the indentation of the four section fields.
\<close>

definition LongHelp_fields :: "string \<Rightarrow> Command \<Rightarrow> string list \<Rightarrow> helpFields" where
  "LongHelp_fields rootName cmd path =
     (let pathStr = rootName;
          pathStr = (if length path > 0 then pathStr @ '' '' @ Join path '' '' else pathStr);
          fields = \<lparr>Indent = indentStr,
                    Path = pathStr,
                    ArgUsage = usageText cmd,
                    Tagline = cmd_Description cmd,
                    Arguments = cmd_ArgumentHelp cmd,
                    Options = cmd_OptionHelp cmd,
                    Subcommands = cmd_SubcommandHelp cmd,
                    Description = cmd_Help cmd\<rparr>;
          fields = (if length (cmd_ArgumentHelp cmd) = 0
                    then fields\<lparr>Arguments := Join (argumentText cmd) ''\<newline>''\<rparr>
                    else fields);
          fields = (if length (cmd_OptionHelp cmd) = 0
                    then fields\<lparr>Options := Join (optionText [cmd]) ''\<newline>''\<rparr>
                    else fields);
          fields = (if length (cmd_SubcommandHelp cmd) = 0
                    then fields\<lparr>Subcommands :=
                           Join (subcommandText cmd rootName path) ''\<newline>''\<rparr>
                    else fields);
          fields = fields\<lparr>Arguments := indentString (Arguments fields) indentStr\<rparr>;
          fields = fields\<lparr>Options := indentString (Options fields) indentStr\<rparr>;
          fields = fields\<lparr>Subcommands := indentString (Subcommands fields) indentStr\<rparr>;
          fields = fields\<lparr>Description := indentString (Description fields) indentStr\<rparr>
      in fields)"

text \<open>
  The output sink \<open>out\<close> is the text written to it so far, and a write appends to it
  (a sink whose writes succeed, as \<open>bytes.Buffer\<close> is). The result is the error
  returned, \<open>None\<close> for \<open>nil\<close>, and the sink afterwards.
\<close>

definition LongHelp ::
  "string \<Rightarrow> Command \<Rightarrow> string list \<Rightarrow> string \<Rightarrow> error option \<times> string" where
  "LongHelp rootName root path out =
     (case Get root path of
        Inl err \<Rightarrow> (Some err, out)
      | Inr cmd \<Rightarrow>
          (None, out @ exec_nodes longHelpTemplate (LongHelp_fields rootName cmd path)))"

subsection \<open>Lines of a text\<close>

text \<open>
  The notions the statements about indentation use: the lines of a text are the pieces
  between its newline characters, so a text has one line more than it has newlines.
\<close>

fun split_lines :: "string \<Rightarrow> string list" where
  "split_lines [] = [[]]"
| "split_lines (c # cs) =
     (if c = CHR ''\<newline>'' then [] # split_lines cs
      else (case split_lines cs of
              [] \<Rightarrow> [[c]]
            | l # ls \<Rightarrow> (c # l) # ls))"

definition line_count :: "string \<Rightarrow> nat" where
  "line_count s = count_list s CHR ''\<newline>'' + 1"

definition starts_with :: "string \<Rightarrow> string \<Rightarrow> bool" where
  "starts_with s pre = (take (length pre) s = pre)"

subsection \<open>A command with other options\<close>

text \<open>
  The command \<open>cmd\<close> with the list \<open>opts\<close> for its options and every other field
  as it is; the statement about the override of the options text uses it.
\<close>

definition with_Options :: "Command \<Rightarrow> Option list \<Rightarrow> Command" where
  "with_Options cmd opts =
     Command (cmd_Description cmd) (cmd_Help cmd) (cmd_ArgumentHelp cmd) (cmd_OptionHelp cmd)
       (cmd_SubcommandHelp cmd) (cmd_Arguments cmd) opts (cmd_Subcommands cmd)"

section \<open>Properties\<close>

subsection \<open>align\<close>

lemma Max_insert_insert:
  "finite S \<Longrightarrow> Max (insert (a::nat) (insert b S)) = Max (insert (max a b) S)"
  by (cases "S = {}") (simp_all add: max.assoc)

lemma fold_longest:
  "fold (\<lambda>line longest. if length line > longest then length line else longest) lines n
   = Max (insert n (length ` set lines))"
proof (induction lines arbitrary: n)
  case Nil
  show ?case by simp
next
  case (Cons l ls)
  have step: "(if length l > n then length l else n) = max n (length l)"
    by (simp add: max_def)
  have "Max (insert n (insert (length l) (length ` set ls)))
      = Max (insert (max n (length l)) (length ` set ls))"
    by (rule Max_insert_insert) simp
  with Cons.IH [of "max n (length l)"] step show ?case by simp
qed

lemma longest_of_Max: "longest_of lines = Max (insert 0 (length ` set lines))"
  by (simp add: longest_of_def fold_longest)

lemma longest_ge: "line \<in> set lines \<Longrightarrow> length line \<le> longest_of lines"
  by (simp add: longest_of_Max)

lemma longest_of_empty_iff: "longest_of lines = 0 \<longleftrightarrow> (\<forall>line \<in> set lines. line = [])"
proof
  assume z: "longest_of lines = 0"
  show "\<forall>line \<in> set lines. line = []"
  proof
    fix line assume "line \<in> set lines"
    from longest_ge [OF this] z show "line = []" by simp
  qed
next
  assume a: "\<forall>line \<in> set lines. line = []"
  have "Max (insert 0 (length ` set lines)) = 0"
  proof (rule Max_eqI)
    show "finite (insert 0 (length ` set lines))" by simp
    show "\<And>y. y \<in> insert 0 (length ` set lines) \<Longrightarrow> y \<le> 0" using a by auto
    show "0 \<in> insert 0 (length ` set lines)" by simp
  qed
  then show "longest_of lines = 0" by (simp only: longest_of_Max)
qed

lemma length_align: "length (align lines) = length lines"
  by (simp add: align_def)

lemma align_nth:
  "i < length lines \<Longrightarrow>
   align lines ! i =
     (if lines ! i = [] then []
      else lines ! i @ replicate (longest_of lines - length (lines ! i)) CHR '' '')"
  by (simp add: align_def)

lemma longest_of_align: "longest_of (align lines) = longest_of lines"
proof (cases "longest_of lines = 0")
  case True
  then have e: "\<forall>line \<in> set lines. line = []" by (simp add: longest_of_empty_iff)
  then have "align lines = lines" by (simp add: align_def map_idI)
  then show ?thesis by simp
next
  case False
  then obtain l where l: "l \<in> set lines" "l \<noteq> []"
    by (auto simp: longest_of_empty_iff)
  have le: "\<And>x. x \<in> set lines \<Longrightarrow> length x \<le> longest_of lines"
    by (rule longest_ge)
  have img: "length ` set (align lines) \<subseteq> {0, longest_of lines}"
    using le by (auto simp: align_def)
  have "l @ replicate (longest_of lines - length l) CHR '' '' \<in> set (align lines)"
    using l by (force simp: align_def)
  then have mem: "longest_of lines \<in> length ` set (align lines)"
    using le [OF l(1)] by (force simp: image_iff)
  have "Max (insert 0 (length ` set (align lines))) = longest_of lines"
  proof (rule Max_eqI)
    show "finite (insert 0 (length ` set (align lines)))" by simp
    show "\<And>y. y \<in> insert 0 (length ` set (align lines)) \<Longrightarrow> y \<le> longest_of lines"
      using img by auto
    show "longest_of lines \<in> insert 0 (length ` set (align lines))"
      using mem by simp
  qed
  then show ?thesis by (simp add: longest_of_Max [of "align lines"])
qed

text \<open>
  C4. \<open>align\<close> returns as many entries as it was given. An entry that was not empty is
  the original entry followed by spaces only, and its length is the maximum of the lengths
  of all the entries given; an entry that was empty stays empty.
\<close>

theorem align_pads_to_longest:
  "length (align lines) = length lines \<and>
   (\<forall>i < length lines.
      if lines ! i = [] then align lines ! i = []
      else align lines ! i
             = lines ! i @ replicate (Max (length ` set lines) - length (lines ! i)) CHR '' ''
           \<and> length (align lines ! i) = Max (length ` set lines))"
proof (intro conjI allI impI)
  show "length (align lines) = length lines" by (rule length_align)
next
  fix i assume i: "i < length lines"
  then have ne: "set lines \<noteq> {}" by auto
  have m: "longest_of lines = Max (length ` set lines)"
    using ne by (simp add: longest_of_Max)
  have mem: "lines ! i \<in> set lines" using i by simp
  have le: "length (lines ! i) \<le> Max (length ` set lines)"
    using longest_ge [OF mem] m by simp
  show "if lines ! i = [] then align lines ! i = []
        else align lines ! i
               = lines ! i @ replicate (Max (length ` set lines) - length (lines ! i)) CHR '' ''
             \<and> length (align lines ! i) = Max (length ` set lines)"
    using align_nth [OF i] m le by simp
qed

theorem align_pads_to_longest_witness:
  "length (align [''-v, '', [], ''-h'']) = 3 \<and>
   align [''-v, '', [], ''-h''] ! 2 = ''-h  '' \<and>
   align [''-v, '', [], ''-h''] ! 1 = []"
proof -
  have m: "Max (length ` set [''-v, '', [], ''-h'']) = 4" by simp
  have "(2::nat) < length [''-v, '', [], ''-h'']" by simp
  moreover have "(1::nat) < length [''-v, '', [], ''-h'']" by simp
  ultimately show ?thesis
    using align_pads_to_longest [of "[''-v, '', [], ''-h'']"] m
    by (auto simp: numeral_2_eq_2)
qed

text \<open>
  C9. \<open>align\<close> is idempotent: aligning an aligned column changes nothing.
\<close>

theorem align_idempotent: "align (align lines) = align lines"
proof (rule nth_equalityI)
  show "length (align (align lines)) = length (align lines)" by (simp add: length_align)
next
  fix i assume "i < length (align (align lines))"
  then have i: "i < length lines" by (simp add: length_align)
  then have i': "i < length (align lines)" by (simp add: length_align)
  have le: "length (lines ! i) \<le> longest_of lines"
    using i by (simp add: longest_ge)
  show "align (align lines) ! i = align lines ! i"
    using align_nth [OF i'] align_nth [OF i] le
    by (simp add: longest_of_align)
qed

subsection \<open>Usage text of one argument\<close>

text \<open>
  C6. An argument that is required and not variadic renders as \<open><name>\<close>, one that is
  neither as \<open>[<name>]\<close>, and a variadic one as the required or optional rendering followed
  by \<open>...\<close>; a required variadic argument \<open>file\<close> renders as \<open><file>...\<close>.
\<close>

theorem argUsageText_cases:
  "argUsageText \<lparr>arg_Name = name, arg_Required = True, arg_Variadic = False,
                  arg_Description = d\<rparr> = ''<'' @ name @ ''>'' \<and>
   argUsageText \<lparr>arg_Name = name, arg_Required = False, arg_Variadic = False,
                  arg_Description = d\<rparr> = ''[<'' @ name @ ''>]'' \<and>
   argUsageText \<lparr>arg_Name = name, arg_Required = r, arg_Variadic = True,
                  arg_Description = d\<rparr>
     = argUsageText \<lparr>arg_Name = name, arg_Required = r, arg_Variadic = False,
                      arg_Description = d\<rparr> @ ''...'' \<and>
   argUsageText \<lparr>arg_Name = ''file'', arg_Required = True, arg_Variadic = True,
                  arg_Description = d\<rparr> = ''<file>...''"
  by (simp add: argUsageText_def requiredArg_def optionalArg_def variadicArg_def)

subsection \<open>indentString\<close>

lemma split_lines_not_Nil: "split_lines s \<noteq> []"
  by (induction s) (simp_all split: list.splits)

lemma length_split_lines: "length (split_lines s) = line_count s"
proof (induction s)
  case Nil
  show ?case by (simp add: line_count_def)
next
  case (Cons c cs)
  obtain l ls where "split_lines cs = l # ls"
    using split_lines_not_Nil [of cs] by (cases "split_lines cs") auto
  with Cons show ?case by (simp add: line_count_def)
qed

lemma split_lines_append:
  "CHR ''\<newline>'' \<notin> set p \<Longrightarrow>
   split_lines (p @ s) = (p @ hd (split_lines s)) # tl (split_lines s)"
proof (induction p)
  case Nil
  then show ?case using split_lines_not_Nil [of s] by simp
next
  case (Cons c p)
  then show ?case by auto
qed

lemma split_lines_indentString:
  assumes "CHR ''\<newline>'' \<notin> set p"
  shows "split_lines (indentString t p)
         = hd (split_lines t) # map (\<lambda>l. p @ l) (tl (split_lines t))"
proof (induction t)
  case Nil
  show ?case by simp
next
  case (Cons c cs)
  obtain l ls where sl: "split_lines cs = l # ls"
    using split_lines_not_Nil [of cs] by (cases "split_lines cs") auto
  show ?case
  proof (cases "c = CHR ''\<newline>''")
    case True
    have "split_lines (p @ indentString cs p)
          = (p @ hd (split_lines (indentString cs p))) # tl (split_lines (indentString cs p))"
      by (rule split_lines_append [OF assms])
    with True Cons.IH sl show ?thesis by simp
  next
    case False
    with Cons.IH sl show ?thesis by simp
  qed
qed

lemma count_indentString:
  "CHR ''\<newline>'' \<notin> set p \<Longrightarrow>
   count_list (indentString t p) CHR ''\<newline>'' = count_list t CHR ''\<newline>''"
  by (induction t) simp_all

lemma indentString_append:
  "indentString (a @ b) p = indentString a p @ indentString b p"
  by (induction a) simp_all

lemma indentString_Nil_iff: "indentString s p = [] \<longleftrightarrow> s = []"
  by (cases s) simp_all

text \<open>
  C5, as the code has it. The claim quantifies over every prefix, and fails for a prefix
  that contains a newline itself: the text \<open>a\nb\<close> has two lines, and indented with
  the prefix \<open>\n\<close> it has three.
\<close>

theorem indentString_newline_prefix_counterexample:
  "line_count (indentString ''a\<newline>b'' ''\<newline>'') \<noteq> line_count ''a\<newline>b''"
  by (simp add: line_count_def)

text \<open>
  C5, amended. For every text and every prefix that contains no newline character,
  \<open>indentString\<close> keeps the number of lines (the number of newlines plus one), and in
  the result every line but the first starts with the prefix.
\<close>

theorem indentString_lines:
  assumes "CHR ''\<newline>'' \<notin> set p"
  shows "line_count (indentString t p) = line_count t \<and>
         length (split_lines (indentString t p)) = length (split_lines t) \<and>
         list_all (\<lambda>l. starts_with l p) (tl (split_lines (indentString t p)))"
proof -
  have "line_count (indentString t p) = line_count t"
    using assms by (simp add: line_count_def count_indentString)
  moreover have "list_all (\<lambda>l. starts_with l p) (tl (split_lines (indentString t p)))"
    by (simp add: split_lines_indentString [OF assms] list_all_iff starts_with_def)
  ultimately show ?thesis by (simp add: length_split_lines)
qed

theorem indentString_lines_witness:
  "line_count (indentString ''ab\<newline>cd\<newline>e'' ''    '') = 3 \<and>
   split_lines (indentString ''ab\<newline>cd\<newline>e'' ''    '')
     = [''ab'', ''    cd'', ''    e'']"
proof -
  have h: "CHR ''\<newline>'' \<notin> set ''    ''" by simp
  have e: "split_lines (indentString ''ab\<newline>cd\<newline>e'' ''    '')
           = [''ab'', ''    cd'', ''    e'']"
    by simp
  from indentString_lines [OF h, of "''ab\<newline>cd\<newline>e''"] e
  show ?thesis by (simp add: line_count_def)
qed

subsection \<open>The templates and the fields of LongHelp\<close>

lemma exec_usageTemplate:
  "exec_nodes usageTemplate f
   = Path f @ (if ArgUsage f = [] then [] else '' '' @ ArgUsage f) @ '' - '' @ Tagline f"
  by (simp add: usageTemplate_def)

lemma exec_longHelpTemplate:
  "exec_nodes longHelpTemplate f
   = ''\<newline>'' @ Indent f @ exec_nodes usageTemplate f @ ''\<newline>\<newline>''
     @ (if Arguments f = [] then []
        else ''ARGUMENTS:\<newline>\<newline>'' @ Indent f @ Arguments f @ ''\<newline>\<newline>'')
     @ (if Options f = [] then []
        else ''OPTIONS:\<newline>\<newline>'' @ Indent f @ Options f @ ''\<newline>\<newline>'')
     @ (if Subcommands f = [] then []
        else ''SUBCOMMANDS:\<newline>\<newline>'' @ Indent f @ Subcommands f @ ''\<newline>\<newline>''
             @ Indent f @ ''Use '' @ [CHR 0x27] @ Path f @ '' <subcmd> --help'' @ [CHR 0x27]
             @ '' for more information about each command.\<newline>\<newline>'')
     @ (if Description f = [] then []
        else ''DESCRIPTION:\<newline>\<newline>'' @ Indent f @ Description f @ ''\<newline>\<newline>'')
     @ ''\<newline>''"
  by (simp add: longHelpTemplate_def)

lemma Indent_LongHelp_fields: "Indent (LongHelp_fields rootName cmd path) = indentStr"
  by (simp add: LongHelp_fields_def Let_def)

lemma Path_LongHelp_fields:
  "Path (LongHelp_fields rootName cmd path)
   = rootName @ (if path = [] then [] else '' '' @ Join path '' '')"
  by (simp add: LongHelp_fields_def Let_def)

lemma ArgUsage_LongHelp_fields: "ArgUsage (LongHelp_fields rootName cmd path) = usageText cmd"
  by (simp add: LongHelp_fields_def Let_def)

lemma Tagline_LongHelp_fields:
  "Tagline (LongHelp_fields rootName cmd path) = cmd_Description cmd"
  by (simp add: LongHelp_fields_def Let_def)

lemma Options_LongHelp_fields:
  "Options (LongHelp_fields rootName cmd path)
   = indentString (if cmd_OptionHelp cmd = [] then Join (optionText [cmd]) ''\<newline>''
                   else cmd_OptionHelp cmd) indentStr"
  by (simp add: LongHelp_fields_def Let_def)

lemma Arguments_LongHelp_fields:
  "Arguments (LongHelp_fields rootName cmd path)
   = indentString (if cmd_ArgumentHelp cmd = [] then Join (argumentText cmd) ''\<newline>''
                   else cmd_ArgumentHelp cmd) indentStr"
  by (simp add: LongHelp_fields_def Let_def)

lemma Subcommands_LongHelp_fields:
  "Subcommands (LongHelp_fields rootName cmd path)
   = indentString (if cmd_SubcommandHelp cmd = []
                   then Join (subcommandText cmd rootName path) ''\<newline>''
                   else cmd_SubcommandHelp cmd) indentStr"
  by (simp add: LongHelp_fields_def Let_def)

lemma Description_LongHelp_fields:
  "Description (LongHelp_fields rootName cmd path) = indentString (cmd_Help cmd) indentStr"
  by (simp add: LongHelp_fields_def Let_def)

lemma LongHelp_found:
  "Get root path = Inr cmd \<Longrightarrow>
   LongHelp rootName root path out
   = (None, out @ exec_nodes longHelpTemplate (LongHelp_fields rootName cmd path))"
  by (simp add: LongHelp_def)

subsection \<open>Paths that do not resolve\<close>

lemma Resolve_append:
  "Resolve root (pre @ p) = (case Resolve root pre of None \<Rightarrow> None | Some c \<Rightarrow> Resolve c p)"
  by (induction pre arbitrary: root) (simp_all split: option.splits)

lemma Get_Inr_iff: "Get root path = Inr cmd \<longleftrightarrow> Resolve root path = Some cmd"
  by (simp add: Get_def split: option.splits)

lemma Resolve_None_segment:
  "Resolve root path = None \<Longrightarrow>
   \<exists>pre seg rest c. path = pre @ seg # rest \<and> Resolve root pre = Some c
                     \<and> map_of (cmd_Subcommands c) seg = None"
proof (induction path arbitrary: root)
  case Nil
  then show ?case by simp
next
  case (Cons s ss)
  show ?case
  proof (cases "map_of (cmd_Subcommands root) s")
    case None
    then have "s # ss = [] @ s # ss \<and> Resolve root [] = Some root
               \<and> map_of (cmd_Subcommands root) s = None" by simp
    then show ?thesis by blast
  next
    case (Some sub)
    with Cons.prems have "Resolve sub ss = None" by simp
    from Cons.IH [OF this] obtain pre seg rest c where
      d: "ss = pre @ seg # rest" "Resolve sub pre = Some c"
         "map_of (cmd_Subcommands c) seg = None" by blast
    from d Some have "s # ss = (s # pre) @ seg # rest \<and> Resolve root (s # pre) = Some c
               \<and> map_of (cmd_Subcommands c) seg = None" by simp
    then show ?thesis by blast
  qed
qed

text \<open>
  C2. A path has a segment that is absent from the command tree when the segments before
  it lead from the root to a command \<open>c\<close> and the segment is not the name of a
  subcommand of \<open>c\<close> (by \<open>Resolve_None_segment\<close> every path that does not resolve
  has such a segment). For every root, root name and sink, \<open>LongHelp\<close> then returns the
  error \<open>CommandNotFound\<close> and the sink keeps exactly the text it had: nothing is
  written.
\<close>

theorem LongHelp_not_found:
  assumes "Get root pre = Inr c" and "map_of (cmd_Subcommands c) seg = None"
  shows "LongHelp rootName root (pre @ seg # rest) out
         = (Some (CommandNotFound (pre @ seg # rest)), out)"
proof -
  from assms(1) have "Resolve root pre = Some c" by (simp add: Get_Inr_iff)
  with assms(2) have "Resolve root (pre @ seg # rest) = None"
    by (simp add: Resolve_append)
  then show ?thesis by (simp add: LongHelp_def Get_def)
qed

theorem LongHelp_not_found_witness:
  "LongHelp ''ipfs''
     (Command ''root'' [] [] [] [] [] []
        [(''add'', Command ''add a file'' [] [] [] [] [] [] [])])
     ([''add''] @ ''nope'' # [''x'']) ''written before''
   = (Some (CommandNotFound [''add'', ''nope'', ''x'']), ''written before'')"
proof -
  have g: "Get (Command ''root'' [] [] [] [] [] []
                 [(''add'', Command ''add a file'' [] [] [] [] [] [] [])]) [''add'']
           = Inr (Command ''add a file'' [] [] [] [] [] [] [])"
    by (simp add: Get_def)
  have m: "map_of (cmd_Subcommands (Command ''add a file'' [] [] [] [] [] [] [])) ''nope'' = None"
    by simp
  from LongHelp_not_found [OF g m, of "''ipfs''" "[''x'']" "''written before''"]
  show ?thesis by simp
qed

subsection \<open>The usage line\<close>

text \<open>
  C8. For every command with no arguments, \<open>usageText\<close> is the empty string, and the
  usage template renders \<open><path> - <tagline>\<close>: the path, one space, the dash, one
  space, the tagline, with nothing for the argument usage and no space for it.
\<close>

theorem usage_without_arguments:
  assumes "cmd_Arguments cmd = []"
  shows "usageText cmd = [] \<and>
         ArgUsage (LongHelp_fields rootName cmd path) = [] \<and>
         exec_nodes usageTemplate (LongHelp_fields rootName cmd path)
           = Path (LongHelp_fields rootName cmd path) @ '' - '' @ cmd_Description cmd"
proof -
  from assms have u: "usageText cmd = []" by (simp add: usageText_def)
  then show ?thesis
    by (simp add: exec_usageTemplate ArgUsage_LongHelp_fields Tagline_LongHelp_fields)
qed

theorem usage_without_arguments_witness:
  "usageText (Command ''show the version'' [] [] [] [] [] [] []) = [] \<and>
   exec_nodes usageTemplate
     (LongHelp_fields ''ipfs'' (Command ''show the version'' [] [] [] [] [] [] []) [''version''])
   = ''ipfs version - show the version''"
proof -
  have a: "cmd_Arguments (Command ''show the version'' [] [] [] [] [] [] []) = []" by simp
  from usage_without_arguments [OF a, of "''ipfs''" "[''version'']"]
  show ?thesis by (simp add: Path_LongHelp_fields)
qed

subsection \<open>The sections of the long help\<close>

text \<open>
  C7. When the path resolves, the text written is a newline, the indent, the usage line
  and a blank line, then one block for each of ARGUMENTS, OPTIONS, SUBCOMMANDS and
  DESCRIPTION, and a final newline. The block of a section is the empty text exactly when
  the field of the section is empty (nothing of it is written, neither its header nor a
  blank line); otherwise it is the header, a blank line, the indent, the field and a blank
  line, and for SUBCOMMANDS also the indented line
  \<open>Use '<path> <subcmd> --help' for more information about each command.\<close> and a
  blank line. The indent is four spaces.
\<close>

theorem LongHelp_sections:
  assumes "Get root path = Inr cmd"
  shows "let f = LongHelp_fields rootName cmd path in
         indentStr = replicate 4 CHR '' '' \<and>
         Indent f = replicate 4 CHR '' '' \<and>
         LongHelp rootName root path out =
           (None,
            out @ ''\<newline>'' @ ''    '' @ exec_nodes usageTemplate f @ ''\<newline>\<newline>''
            @ (if Arguments f = [] then []
               else ''ARGUMENTS:\<newline>\<newline>'' @ ''    '' @ Arguments f @ ''\<newline>\<newline>'')
            @ (if Options f = [] then []
               else ''OPTIONS:\<newline>\<newline>'' @ ''    '' @ Options f @ ''\<newline>\<newline>'')
            @ (if Subcommands f = [] then []
               else ''SUBCOMMANDS:\<newline>\<newline>'' @ ''    '' @ Subcommands f
                    @ ''\<newline>\<newline>''
                    @ ''    '' @ ''Use '' @ [CHR 0x27] @ Path f @ '' <subcmd> --help'' @ [CHR 0x27]
                    @ '' for more information about each command.\<newline>\<newline>'')
            @ (if Description f = [] then []
               else ''DESCRIPTION:\<newline>\<newline>'' @ ''    '' @ Description f
                    @ ''\<newline>\<newline>'')
            @ ''\<newline>'')"
proof -
  have i: "indentStr = replicate 4 CHR '' ''"
    by (simp add: indentStr_def numeral_eq_Suc)
  have s: "''    '' = indentStr" by (simp add: indentStr_def)
  show ?thesis
    unfolding Let_def LongHelp_found [OF assms] exec_longHelpTemplate Indent_LongHelp_fields s
    using i by simp
qed

theorem LongHelp_sections_witness:
  "LongHelp ''ipfs'' (Command ''a tool'' ''Long text.'' [] [] [] [] [] []) [] []
   = (None, ''\<newline>    ipfs - a tool\<newline>\<newline>DESCRIPTION:\<newline>\<newline>    Long text.\<newline>\<newline>\<newline>'')"
proof -
  have g: "Get (Command ''a tool'' ''Long text.'' [] [] [] [] [] []) []
           = Inr (Command ''a tool'' ''Long text.'' [] [] [] [] [] [])"
    by (simp add: Get_def)
  have o: "optionText [Command ''a tool'' ''Long text.'' [] [] [] [] [] []] = []"
    by (simp add: optionText_def optionText_names.simps [of "[]"] align_def)
  have f: "LongHelp_fields ''ipfs'' (Command ''a tool'' ''Long text.'' [] [] [] [] [] []) []
        = \<lparr>Indent = ''    '', Path = ''ipfs'', ArgUsage = [], Tagline = ''a tool'',
            Arguments = [], Options = [], Subcommands = [], Description = ''Long text.''\<rparr>"
    by (simp add: LongHelp_fields_def Let_def o indentStr_def usageText_def argumentText_def
          subcommandText_def)
  from LongHelp_sections [OF g, of "''ipfs''" "[]"]
  show ?thesis by (simp add: Let_def f exec_usageTemplate)
qed

subsection \<open>The options generator\<close>

text \<open>
  After the loop over the names there is one line for each option, so the two loops that
  follow read and write lines that exist.
\<close>

lemma length_names_pass:
  "i \<le> length lines \<Longrightarrow>
   length (fst (names_pass opts j i lines d)) = max (length lines) (i + length opts)"
proof (induction opts arbitrary: i lines d)
  case Nil
  then show ?case by simp
next
  case (Cons opt opts)
  then show ?case
    by (simp add: Let_def split: if_splits)
qed

lemma length_optionText_names:
  "length (optionText_names options j lines) = max (length lines) (length options)"
proof (induction options j lines rule: optionText_names.induct)
  case (1 options j lines)
  obtain ls d where p: "names_pass options j 0 lines True = (ls, d)"
    by (cases "names_pass options j 0 lines True")
  have l: "length ls = max (length lines) (length options)"
    using length_names_pass [of 0 lines options j True] p by simp
  show ?case
  proof (cases d)
    case True
    with p l show ?thesis
      by (subst optionText_names.simps) (simp del: optionText_names.simps)
  next
    case False
    have "length (optionText_names options (j + 1) (align ls))
          = max (length (align ls)) (length options)"
      using "1.IH" [OF p [symmetric]] False by simp
    with p l False show ?thesis
      by (subst optionText_names.simps) (simp add: length_align del: optionText_names.simps)
  qed
qed

text \<open>
  The lines of the option \<open>v, verbose\<close> of type \<open>bool\<close> and of an option with the
  single name \<open>c\<close>, when the types have been added and before the last \<open>align\<close>:
  the pass for the second names is the last one, the loop is left before its lines are
  aligned, and the line of \<open>c\<close> has the width of the first names only.
\<close>

lemma names_before_types:
  "add_types
     [\<lparr>opt_Names = [''v'', ''verbose''], opt_Type = ''bool'', opt_Description = d1\<rparr>,
      \<lparr>opt_Names = [[c]], opt_Type = t, opt_Description = d2\<rparr>] 0
     (optionText_names
        [\<lparr>opt_Names = [''v'', ''verbose''], opt_Type = ''bool'', opt_Description = d1\<rparr>,
         \<lparr>opt_Names = [[c]], opt_Type = t, opt_Description = d2\<rparr>] 0 [])
   = [''-v, -verbose (bool)'', ''-'' @ [c] @ ''   ('' @ t @ '')'']"
proof -
  let ?v = "\<lparr>opt_Names = [''v'', ''verbose''], opt_Type = ''bool'', opt_Description = d1\<rparr>"
  let ?h = "\<lparr>opt_Names = [[c]], opt_Type = t, opt_Description = d2\<rparr>"
  have p0: "names_pass [?v, ?h] 0 0 [] True = ([''-v, '', [CHR ''-'', c]], False)"
    by (simp add: optionFlag_def)
  have a0: "align [''-v, '', [CHR ''-'', c]] = [''-v, '', [CHR ''-'', c, CHR '' '', CHR '' '']]"
    by (simp add: align_def longest_of_def)
  have p1: "names_pass [?v, ?h] (Suc 0) 0 [''-v, '', [CHR ''-'', c, CHR '' '', CHR '' '']] True
            = ([''-v, -verbose'', [CHR ''-'', c, CHR '' '', CHR '' '']], True)"
    by (simp add: optionFlag_def)
  have n1: "optionText_names [?v, ?h] (Suc 0) [''-v, '', [CHR ''-'', c, CHR '' '', CHR '' '']]
            = [''-v, -verbose'', [CHR ''-'', c, CHR '' '', CHR '' '']]"
    by (subst optionText_names.simps, subst p1) (simp del: optionText_names.simps)
  have n: "optionText_names [?v, ?h] 0 [] = [''-v, -verbose'', [CHR ''-'', c, CHR '' '', CHR '' '']]"
    by (subst optionText_names.simps, subst p0) (simp add: a0 n1 del: optionText_names.simps)
  show ?thesis
    unfolding n by (simp add: optionType_def)
qed

text \<open>
  C1, evaluated. \<open>optionText\<close> for the options \<open>v, verbose\<close> and \<open>h\<close>, both of type
  \<open>bool\<close>: the first line has \<open>-v, -verbose (bool)\<close>, its type at offset 13; the second
  line is \<open>-h\<close>, three spaces and \<open>(bool)\<close>, its type at offset 5. The type columns
  do not start at the same position.
\<close>

theorem optionText_verbose_not_aligned:
  "optionText
     [Command [] [] [] [] [] []
        [\<lparr>opt_Names = [''v'', ''verbose''], opt_Type = ''bool'', opt_Description = ''be verbose''\<rparr>,
         \<lparr>opt_Names = [''h''], opt_Type = ''bool'', opt_Description = ''show help''\<rparr>] []]
   = [''-v, -verbose (bool)\<newline>    be verbose\<newline>'',
      ''-h   (bool)        \<newline>    show help\<newline>'']"
proof -
  let ?v = "\<lparr>opt_Names = [''v'', ''verbose''], opt_Type = ''bool'', opt_Description = ''be verbose''\<rparr>"
  let ?h = "\<lparr>opt_Names = [''h''], opt_Type = ''bool'', opt_Description = ''show help''\<rparr>"
  have ty: "add_types [?v, ?h] 0 (optionText_names [?v, ?h] 0 [])
            = [''-v, -verbose (bool)'', ''-h   (bool)'']"
    using names_before_types [of "''be verbose''" "CHR ''h''" "''bool''" "''show help''"]
    by simp
  have a1: "align [''-v, -verbose (bool)'', ''-h   (bool)'']
            = [''-v, -verbose (bool)'', ''-h   (bool)        '']"
    by (simp add: align_def longest_of_def)
  have d: "add_descriptions [?v, ?h] 0 [''-v, -verbose (bool)'', ''-h   (bool)        '']
           = [''-v, -verbose (bool)\<newline>    be verbose\<newline>'',
              ''-h   (bool)        \<newline>    show help\<newline>'']"
    by simp
  show ?thesis
    by (simp add: optionText_def Let_def ty a1 d
          del: optionText_names.simps add_types.simps add_descriptions.simps)
qed

subsection \<open>Override of the options text\<close>

lemma LongHelp_fields_with_Options:
  "cmd_OptionHelp cmd \<noteq> [] \<Longrightarrow>
   LongHelp_fields rootName (with_Options cmd opts) path = LongHelp_fields rootName cmd path"
  by (simp add: LongHelp_fields_def Let_def with_Options_def usageText_def argumentText_def
        subcommandText_def)

text \<open>
  C3. For every command found whose \<open>OptionHelp\<close> is not empty, the options field is
  that string after one \<open>indentString\<close> with the indent; the fields do not depend on
  the options of the command at all (they are the same for every list of options in its
  place), which is what a shallow embedding can say of a generator that is not called; and
  the OPTIONS block of the text written is the header, a blank line, the indent, that
  indented string and a blank line.
\<close>

theorem OptionHelp_override:
  assumes "Get root path = Inr cmd" and "cmd_OptionHelp cmd \<noteq> []"
  shows "let f = LongHelp_fields rootName cmd path in
         Options f = indentString (cmd_OptionHelp cmd) indentStr \<and>
         (\<forall>opts. LongHelp_fields rootName (with_Options cmd opts) path = f) \<and>
         LongHelp rootName root path out =
           (None,
            out @ ''\<newline>'' @ indentStr @ exec_nodes usageTemplate f @ ''\<newline>\<newline>''
            @ (if Arguments f = [] then []
               else ''ARGUMENTS:\<newline>\<newline>'' @ indentStr @ Arguments f
                    @ ''\<newline>\<newline>'')
            @ ''OPTIONS:\<newline>\<newline>'' @ indentStr
            @ indentString (cmd_OptionHelp cmd) indentStr @ ''\<newline>\<newline>''
            @ (if Subcommands f = [] then []
               else ''SUBCOMMANDS:\<newline>\<newline>'' @ indentStr @ Subcommands f
                    @ ''\<newline>\<newline>''
                    @ indentStr @ ''Use '' @ [CHR 0x27] @ Path f @ '' <subcmd> --help''
                    @ [CHR 0x27] @ '' for more information about each command.\<newline>\<newline>'')
            @ (if Description f = [] then []
               else ''DESCRIPTION:\<newline>\<newline>'' @ indentStr @ Description f
                    @ ''\<newline>\<newline>'')
            @ ''\<newline>'')"
proof -
  have o: "Options (LongHelp_fields rootName cmd path)
           = indentString (cmd_OptionHelp cmd) indentStr"
    using assms(2) by (simp add: Options_LongHelp_fields)
  have ne: "indentString (cmd_OptionHelp cmd) indentStr \<noteq> []"
    using assms(2) by (simp add: indentString_Nil_iff)
  have w: "\<forall>opts. LongHelp_fields rootName (with_Options cmd opts) path
                  = LongHelp_fields rootName cmd path"
    using assms(2) by (simp add: LongHelp_fields_with_Options)
  show ?thesis
    unfolding Let_def LongHelp_found [OF assms(1)] exec_longHelpTemplate Indent_LongHelp_fields
    using o ne w by simp
qed

theorem OptionHelp_override_witness:
  "LongHelp ''ipfs''
     (Command ''a tool'' [] [] ''-x  do it\<newline>-y  undo it'' [] []
        [\<lparr>opt_Names = [''q''], opt_Type = ''bool'', opt_Description = ''quiet''\<rparr>] []) [] []
   = (None, ''\<newline>    ipfs - a tool\<newline>\<newline>OPTIONS:\<newline>\<newline>    -x  do it\<newline>    -y  undo it\<newline>\<newline>\<newline>'')"
proof -
  have g: "Get (Command ''a tool'' [] [] ''-x  do it\<newline>-y  undo it'' [] []
             [\<lparr>opt_Names = [''q''], opt_Type = ''bool'', opt_Description = ''quiet''\<rparr>] []) []
         = Inr (Command ''a tool'' [] [] ''-x  do it\<newline>-y  undo it'' [] []
             [\<lparr>opt_Names = [''q''], opt_Type = ''bool'', opt_Description = ''quiet''\<rparr>] [])"
    by (simp add: Get_def)
  have h: "cmd_OptionHelp (Command ''a tool'' [] [] ''-x  do it\<newline>-y  undo it'' [] []
             [\<lparr>opt_Names = [''q''], opt_Type = ''bool'', opt_Description = ''quiet''\<rparr>] [])
           \<noteq> []"
    by simp
  from OptionHelp_override [OF g h, of "''ipfs''" "[]"]
  show ?thesis
    by (simp add: Let_def exec_usageTemplate Arguments_LongHelp_fields
          Subcommands_LongHelp_fields Description_LongHelp_fields Path_LongHelp_fields
          ArgUsage_LongHelp_fields Tagline_LongHelp_fields indentStr_def usageText_def
          argumentText_def subcommandText_def)
qed

subsection \<open>The leading newline and the entries of subcommands\<close>

lemma fst_LongHelp_None: "fst (LongHelp rootName root path out) = None \<Longrightarrow>
   \<exists>cmd. Get root path = Inr cmd"
  by (cases "Get root path") (simp_all add: LongHelp_def)

text \<open>
  C10. Whenever \<open>LongHelp\<close> returns no error, the text written starts with a newline,
  then the four spaces of the indent and the usage line. In \<open>subcommandText\<close> the entry
  of a subcommand with no arguments has a space after the name, before the newline that
  ends its first line. The usage line of a command with no arguments has no such space:
  it is the path, \<open> - \<close> and the tagline.
\<close>

theorem leading_newline_and_trailing_space:
  "(fst (LongHelp rootName root path out) = None \<longrightarrow>
      (\<exists>cmd rest. Get root path = Inr cmd \<and>
         snd (LongHelp rootName root path out)
         = out @ ''\<newline>'' @ ''    ''
           @ exec_nodes usageTemplate (LongHelp_fields rootName cmd path) @ rest)) \<and>
   (i < length (cmd_Subcommands cmd) \<and> cmd_Subcommands cmd ! i = (name, sub)
      \<and> cmd_Arguments sub = [] \<longrightarrow>
      subcommandText cmd rootName path ! i
      = indentString (rootName @ '' '' @ Join path '' '' @ (if path = [] then [] else '' '')
                      @ name) ''    ''
        @ '' '' @ ''\<newline>'' @ ''    '' @ indentString (cmd_Description sub) ''    ''
        @ ''\<newline>'') \<and>
   (cmd_Arguments cmd = [] \<longrightarrow>
      exec_nodes usageTemplate (LongHelp_fields rootName cmd path)
      = Path (LongHelp_fields rootName cmd path) @ '' - '' @ cmd_Description cmd)"
proof (intro conjI impI)
  assume "fst (LongHelp rootName root path out) = None"
  from fst_LongHelp_None [OF this] obtain c where c: "Get root path = Inr c" by blast
  have "snd (LongHelp rootName root path out)
        = out @ ''\<newline>'' @ ''    ''
          @ exec_nodes usageTemplate (LongHelp_fields rootName c path)
          @ drop (length (''\<newline>'' @ ''    ''
                    @ exec_nodes usageTemplate (LongHelp_fields rootName c path)))
              (exec_nodes longHelpTemplate (LongHelp_fields rootName c path))"
    unfolding LongHelp_found [OF c] exec_longHelpTemplate Indent_LongHelp_fields
    by (simp add: indentStr_def)
  with c show "\<exists>cmd rest. Get root path = Inr cmd \<and>
         snd (LongHelp rootName root path out)
         = out @ ''\<newline>'' @ ''    ''
           @ exec_nodes usageTemplate (LongHelp_fields rootName cmd path) @ rest"
    by blast
next
  assume a: "i < length (cmd_Subcommands cmd) \<and> cmd_Subcommands cmd ! i = (name, sub)
      \<and> cmd_Arguments sub = []"
  then have u: "usageText sub = []" by (simp add: usageText_def)
  from a u show "subcommandText cmd rootName path ! i
      = indentString (rootName @ '' '' @ Join path '' '' @ (if path = [] then [] else '' '')
                      @ name) ''    ''
        @ '' '' @ ''\<newline>'' @ ''    '' @ indentString (cmd_Description sub) ''    ''
        @ ''\<newline>''"
    by (simp add: subcommandText_def Let_def indentString_append)
next
  assume "cmd_Arguments cmd = []"
  then have "usageText cmd = []" by (simp add: usageText_def)
  then show "exec_nodes usageTemplate (LongHelp_fields rootName cmd path)
      = Path (LongHelp_fields rootName cmd path) @ '' - '' @ cmd_Description cmd"
    by (simp add: exec_usageTemplate ArgUsage_LongHelp_fields Tagline_LongHelp_fields)
qed


theorem leading_newline_and_trailing_space_witness:
  "fst (LongHelp ''ipfs''
          (Command ''a tool'' [] [] [] [] [] []
             [(''list'', Command ''list things'' [] [] [] [] [] [] [])]) [] []) = None \<and>
   (\<exists>rest. snd (LongHelp ''ipfs''
          (Command ''a tool'' [] [] [] [] [] []
             [(''list'', Command ''list things'' [] [] [] [] [] [] [])]) [] [])
      = ''\<newline>    ipfs - a tool'' @ rest) \<and>
   subcommandText
     (Command ''a tool'' [] [] [] [] [] []
        [(''list'', Command ''list things'' [] [] [] [] [] [] [])]) ''ipfs'' [] ! 0
     = ''ipfs list \<newline>    list things\<newline>'' \<and>
   exec_nodes usageTemplate
     (LongHelp_fields ''ipfs''
        (Command ''a tool'' [] [] [] [] [] []
           [(''list'', Command ''list things'' [] [] [] [] [] [] [])]) [])
     = ''ipfs - a tool''"
proof -
  let ?S = "Command ''list things'' [] [] [] [] [] [] []"
  let ?R = "Command ''a tool'' [] [] [] [] [] [] [(''list'', ?S)]"
  note t = leading_newline_and_trailing_space
             [where rootName = "''ipfs''" and root = ?R and path = "[]" and out = "[]"
                and cmd = ?R and i = 0 and name = "''list''" and sub = ?S]
  have g: "Get ?R [] = Inr ?R" by (simp add: Get_def)
  have h1: "fst (LongHelp ''ipfs'' ?R [] []) = None" by (simp add: LongHelp_def g)
  have h2: "0 < length (cmd_Subcommands ?R) \<and> cmd_Subcommands ?R ! 0 = (''list'', ?S)
            \<and> cmd_Arguments ?S = []" by simp
  have h3: "cmd_Arguments ?R = []" by simp
  from t h3 have u: "exec_nodes usageTemplate (LongHelp_fields ''ipfs'' ?R []) = ''ipfs - a tool''"
    by (simp add: Path_LongHelp_fields)
  from t h2 have s: "subcommandText ?R ''ipfs'' [] ! 0
                     = ''ipfs list \<newline>    list things\<newline>''"
    by simp
  from t h1 obtain c rest where
    c: "Get ?R [] = Inr c"
       "snd (LongHelp ''ipfs'' ?R [] [])
        = [] @ ''\<newline>'' @ ''    '' @ exec_nodes usageTemplate (LongHelp_fields ''ipfs'' c []) @ rest"
    by blast
  from c(1) g have "c = ?R" by simp
  with c(2) u have "snd (LongHelp ''ipfs'' ?R [] []) = ''\<newline>    ipfs - a tool'' @ rest"
    by simp
  then have "\<exists>rest. snd (LongHelp ''ipfs'' ?R [] []) = ''\<newline>    ipfs - a tool'' @ rest"
    by blast
  with h1 s u show ?thesis by blast
qed

end
